theory Spec2Isabelle
  imports Main "HOL-Library.Sublist"
begin

section \<open>FlashToken: fixed-prefix and append-only tokenizer caches\<close>

text \<open>
  A shallow embedding of \<^verbatim>\<open>flashtoken/fixed_prefix.py\<close> and
  \<^verbatim>\<open>flashtoken/append_only_piece.py\<close>. Python strings are lists over an arbitrary
  character type \<open>'c\<close> (one element per code point), tokens are Python integers.
\<close>

subsection \<open>The encoder collaborator\<close>

type_synonym token = int

text \<open>
  The tiktoken encoding object is external to the package. Every method the package calls
  on it is a field of this record; \<open>enc_finditer\<close> stands for
  \<^verbatim>\<open>regex.compile(encoding._pat_str).finditer\<close> and yields the spans
  \<^verbatim>\<open>(m.start(), m.end())\<close> of the matches in order. Of the pair returned by
  \<^verbatim>\<open>encode_with_unstable\<close> only the first component is used by the package, so only
  that one is modelled. Encoder calls are total here: failures inside the encoder are left
  aside.
\<close>

record 'c encoding =
  enc_finditer :: "'c list \<Rightarrow> (nat \<times> nat) list"
  enc_encode_single_piece :: "'c list \<Rightarrow> token list"
  enc_encode_ordinary :: "'c list \<Rightarrow> token list"
  enc_encode_with_unstable :: "'c list \<Rightarrow> token list"
  enc_decode :: "token list \<Rightarrow> 'c list"

text \<open>\<^verbatim>\<open>m.group(0)\<close> of a match with span \<open>(s, e)\<close> in the searched string.\<close>

definition group0 :: "'c list \<Rightarrow> nat \<times> nat \<Rightarrow> 'c list" where
  "group0 t m = take (snd m - fst m) (drop (fst m) t)"

subsection \<open>Python errors and list access\<close>

datatype error = ValueError string | IndexError

abbreviation InvalidArgument :: error where
  "InvalidArgument \<equiv> ValueError ''backtrack_pieces must be >= 1''"

abbreviation StableSplitMismatch :: error where
  "StableSplitMismatch \<equiv>
     ValueError ''Stable token prefix does not decode to a string prefix of the input text.''"

text \<open>\<^verbatim>\<open>xs[i]\<close>: a negative index counts from the end, an index out of range raises.\<close>

definition getitem :: "'a list \<Rightarrow> int \<Rightarrow> error + 'a" where
  "getitem xs i =
     (let n = int (length xs);
          j = (if i < 0 then i + n else i)
      in if j < 0 \<or> n \<le> j then Inl IndexError else Inr (xs ! nat j))"

text \<open>The position a slice bound \<open>i\<close> denotes in a list of length \<open>n\<close>.\<close>

definition slice_bound :: "nat \<Rightarrow> int \<Rightarrow> nat" where
  "slice_bound n i = (if i < 0 then nat (max 0 (int n + i)) else min n (nat i))"

text \<open>\<^verbatim>\<open>xs[i:]\<close> and \<^verbatim>\<open>xs[:i]\<close>.\<close>

definition slice_from :: "'a list \<Rightarrow> int \<Rightarrow> 'a list" where
  "slice_from xs i = drop (slice_bound (length xs) i) xs"

definition slice_to :: "'a list \<Rightarrow> int \<Rightarrow> 'a list" where
  "slice_to xs i = take (slice_bound (length xs) i) xs"

subsection \<open>\<^verbatim>\<open>fixed_prefix.py\<close>\<close>

record 'c StableSplit =
  stable_tokens :: "token list"
  stable_text :: "'c list"
  unstable_text :: "'c list"

definition stable_split_for_text :: "'c encoding \<Rightarrow> 'c list \<Rightarrow> error + 'c StableSplit" where
  "stable_split_for_text encoding t =
     (let stable_tokens = enc_encode_with_unstable encoding t;
          stable_text = enc_decode encoding stable_tokens
      in if \<not> prefix stable_text t then Inl StableSplitMismatch
         else Inr \<lparr>stable_tokens = stable_tokens,
                   stable_text = stable_text,
                   unstable_text = drop (length stable_text) t\<rparr>)"

text \<open>
  The object state of \<^verbatim>\<open>FixedPrefixTokenCache\<close>. The encoding it holds never changes, so
  it is passed to each method instead of being stored.
\<close>

record 'c FixedPrefixTokenCache =
  fp_prefix :: "'c list"
  fp_split :: "'c StableSplit"

definition FixedPrefixTokenCache_init ::
  "'c encoding \<Rightarrow> 'c list \<Rightarrow> error + 'c FixedPrefixTokenCache" where
  "FixedPrefixTokenCache_init encoding p =
     (case stable_split_for_text encoding p of
        Inl e \<Rightarrow> Inl e
      | Inr s \<Rightarrow> Inr \<lparr>fp_prefix = p, fp_split = s\<rparr>)"

definition stable_prefix_token_count :: "'c FixedPrefixTokenCache \<Rightarrow> nat" where
  "stable_prefix_token_count self = length (stable_tokens (fp_split self))"

definition unstable_prefix_char_count :: "'c FixedPrefixTokenCache \<Rightarrow> nat" where
  "unstable_prefix_char_count self = length (unstable_text (fp_split self))"

definition encode_ordinary_tail ::
  "'c encoding \<Rightarrow> 'c FixedPrefixTokenCache \<Rightarrow> 'c list \<Rightarrow> token list" where
  "encode_ordinary_tail encoding self sfx =
     (let tail = unstable_text (fp_split self) @ sfx
      in enc_encode_ordinary encoding tail)"

definition encode_ordinary ::
  "'c encoding \<Rightarrow> 'c FixedPrefixTokenCache \<Rightarrow> 'c list \<Rightarrow> token list" where
  "encode_ordinary encoding self sfx =
     stable_tokens (fp_split self) @ encode_ordinary_tail encoding self sfx"

subsection \<open>\<^verbatim>\<open>append_only_piece.py\<close>\<close>

record TokenDelta =
  rollback_tokens :: int
  tokens_to_append :: "token list"

text \<open>
  The mutable fields of \<^verbatim>\<open>AppendOnlyPieceTokenCache\<close>; the encoding and the compiled
  pattern are constant and passed to each method.
\<close>

record 'c AppendOnlyPieceTokenCache =
  backtrack_pieces :: int
  cache_text :: "'c list"
  pieces :: "(nat \<times> nat) list"
  piece_tokens :: "token list list"
  tokens :: "token list"

text \<open>
  The loop of \<^verbatim>\<open>reset\<close> over the matches of the pattern in \<open>t\<close>; the accumulator is
  \<^verbatim>\<open>(self._pieces, self._piece_tokens, self._tokens)\<close>.
\<close>

fun reset_loop ::
  "'c encoding \<Rightarrow> 'c list \<Rightarrow> (nat \<times> nat) list
    \<Rightarrow> (nat \<times> nat) list \<times> token list list \<times> token list
    \<Rightarrow> (nat \<times> nat) list \<times> token list list \<times> token list" where
  "reset_loop encoding t [] acc = acc"
| "reset_loop encoding t (m # ms) (ps, pts, toks) =
     (let piece_text = group0 t m;
          ptoks = enc_encode_single_piece encoding piece_text
      in reset_loop encoding t ms (ps @ [(fst m, snd m)], pts @ [ptoks], toks @ ptoks))"

definition reset ::
  "'c encoding \<Rightarrow> 'c AppendOnlyPieceTokenCache \<Rightarrow> 'c list \<Rightarrow> 'c AppendOnlyPieceTokenCache" where
  "reset encoding self t =
     (case reset_loop encoding t (enc_finditer encoding t) ([], [], []) of
        (ps, pts, toks) \<Rightarrow>
          self\<lparr>cache_text := t, pieces := ps, piece_tokens := pts, tokens := toks\<rparr>)"

definition AppendOnlyPieceTokenCache_init ::
  "'c encoding \<Rightarrow> 'c list \<Rightarrow> int \<Rightarrow> error + 'c AppendOnlyPieceTokenCache" where
  "AppendOnlyPieceTokenCache_init encoding initial_text k =
     (if k < 1 then Inl InvalidArgument
      else Inr (reset encoding
                  \<lparr>backtrack_pieces = k, cache_text = [], pieces = [],
                   piece_tokens = [], tokens = []\<rparr>
                  initial_text))"

text \<open>
  The loop of \<^verbatim>\<open>append_ordinary\<close> over the matches of the pattern in the tail text; the
  accumulator is \<^verbatim>\<open>(new_pieces, new_piece_tokens, tokens_to_append)\<close>.
\<close>

fun tail_loop ::
  "'c encoding \<Rightarrow> 'c list \<Rightarrow> nat \<Rightarrow> (nat \<times> nat) list
    \<Rightarrow> (nat \<times> nat) list \<times> token list list \<times> token list
    \<Rightarrow> (nat \<times> nat) list \<times> token list list \<times> token list" where
  "tail_loop encoding tail_text reprocess_start [] acc = acc"
| "tail_loop encoding tail_text reprocess_start (m # ms) (ps, pts, toks) =
     (let piece_text = group0 tail_text m;
          ptoks = enc_encode_single_piece encoding piece_text
      in tail_loop encoding tail_text reprocess_start ms
           (ps @ [(reprocess_start + fst m, reprocess_start + snd m)],
            pts @ [ptoks], toks @ ptoks))"

text \<open>
  \<^verbatim>\<open>del xs[-r:]\<close> for \<open>r > 0\<close>: the last \<open>r\<close> elements go, all of them when the list is
  shorter.
\<close>

definition del_last :: "nat \<Rightarrow> 'a list \<Rightarrow> 'a list" where
  "del_last r xs = take (length xs - r) xs"

definition append_ordinary ::
  "'c encoding \<Rightarrow> 'c AppendOnlyPieceTokenCache \<Rightarrow> 'c list
    \<Rightarrow> error + ('c AppendOnlyPieceTokenCache \<times> TokenDelta)" where
  "append_ordinary encoding self delta =
     (if delta = [] then Inr (self, \<lparr>rollback_tokens = 0, tokens_to_append = []\<rparr>)
      else
        let prev_piece_count = length (pieces self);
            prev_token_count = length (tokens self);
            self1 = self\<lparr>cache_text := cache_text self @ delta\<rparr>
        in if prev_piece_count = 0 then
             let self2 = reset encoding self1 (cache_text self1)
             in Inr (self2, \<lparr>rollback_tokens = int prev_token_count,
                             tokens_to_append = tokens self2\<rparr>)
           else
             let b = min (backtrack_pieces self1) (int prev_piece_count);
                 start_piece_index = int prev_piece_count - b
             in case getitem (pieces self1) start_piece_index of
                  Inl e \<Rightarrow> Inl e
                | Inr p \<Rightarrow>
                    let reprocess_start = fst p;
                        old_tail_token_count =
                          sum_list (map length (slice_from (piece_tokens self1) start_piece_index));
                        rollback = old_tail_token_count;
                        toks1 = (if rollback \<noteq> 0 then del_last rollback (tokens self1)
                                 else tokens self1);
                        tail_text = drop reprocess_start (cache_text self1)
                    in case tail_loop encoding tail_text reprocess_start
                              (enc_finditer encoding tail_text) ([], [], []) of
                         (new_pieces, new_piece_tokens, toks_to_append) \<Rightarrow>
                           Inr (self1\<lparr>pieces := slice_to (pieces self1) start_piece_index @ new_pieces,
                                      piece_tokens :=
                                        slice_to (piece_tokens self1) start_piece_index
                                          @ new_piece_tokens,
                                      tokens := toks1 @ toks_to_append\<rparr>,
                                \<lparr>rollback_tokens = int rollback,
                                 tokens_to_append = toks_to_append\<rparr>))"

subsection \<open>Call sequences\<close>

text \<open>
  The public mutating calls of the append-only cache, and a driver that performs a sequence
  of them on one cache, as \<^verbatim>\<open>benchmark/run.py\<close> does with appends.
\<close>

datatype 'c call = Reset "'c list" | Append "'c list"

fun run_calls ::
  "'c encoding \<Rightarrow> 'c AppendOnlyPieceTokenCache \<Rightarrow> 'c call list
    \<Rightarrow> error + 'c AppendOnlyPieceTokenCache" where
  "run_calls encoding self [] = Inr self"
| "run_calls encoding self (Reset t # cs) = run_calls encoding (reset encoding self t) cs"
| "run_calls encoding self (Append d # cs) =
     (case append_ordinary encoding self d of
        Inl e \<Rightarrow> Inl e
      | Inr (self', td) \<Rightarrow> run_calls encoding self' cs)"

text \<open>A sequence of appends, collecting the returned deltas in order.\<close>

fun append_all ::
  "'c encoding \<Rightarrow> 'c AppendOnlyPieceTokenCache \<Rightarrow> 'c list list
    \<Rightarrow> error + ('c AppendOnlyPieceTokenCache \<times> TokenDelta list)" where
  "append_all encoding self [] = Inr (self, [])"
| "append_all encoding self (d # ds) =
     (case append_ordinary encoding self d of
        Inl e \<Rightarrow> Inl e
      | Inr (self', td) \<Rightarrow>
          (case append_all encoding self' ds of
             Inl e \<Rightarrow> Inl e
           | Inr (self'', tds) \<Rightarrow> Inr (self'', td # tds)))"

text \<open>
  What an integrator does with a \<^verbatim>\<open>TokenDelta\<close> on its own token stream: drop the last
  \<open>rollback_tokens\<close> entries, then extend with \<open>tokens_to_append\<close>.
\<close>

definition apply_delta :: "token list \<Rightarrow> TokenDelta \<Rightarrow> token list" where
  "apply_delta toks td =
     take (length toks - nat (rollback_tokens td)) toks @ tokens_to_append td"

subsection \<open>Invariants of the append-only cache\<close>

definition P1 :: "'c AppendOnlyPieceTokenCache \<Rightarrow> bool" where
  "P1 self = (tokens self = concat (piece_tokens self))"

definition P2 :: "'c encoding \<Rightarrow> 'c AppendOnlyPieceTokenCache \<Rightarrow> bool" where
  "P2 encoding self = (pieces self = enc_finditer encoding (cache_text self))"

definition P3 :: "'c encoding \<Rightarrow> 'c AppendOnlyPieceTokenCache \<Rightarrow> bool" where
  "P3 encoding self = (tokens self = enc_encode_ordinary encoding (cache_text self))"

definition P4 :: "'c AppendOnlyPieceTokenCache \<Rightarrow> bool" where
  "P4 self = (length (pieces self) = length (piece_tokens self))"

text \<open>The tokens the encoder gives each of the spans \<open>ms\<close> of the text \<open>t\<close>.\<close>

definition encode_pieces :: "'c encoding \<Rightarrow> 'c list \<Rightarrow> (nat \<times> nat) list \<Rightarrow> token list list" where
  "encode_pieces encoding t ms = map (\<lambda>m. enc_encode_single_piece encoding (group0 t m)) ms"

text \<open>
  A cache is cold when its fields are what a run over its whole text from scratch gives:
  the spans of the pattern, their tokens piece by piece, and the flattened tokens.
\<close>

definition cold :: "'c encoding \<Rightarrow> 'c AppendOnlyPieceTokenCache \<Rightarrow> bool" where
  "cold encoding self =
     (pieces self = enc_finditer encoding (cache_text self) \<and>
      piece_tokens self = encode_pieces encoding (cache_text self) (pieces self) \<and>
      tokens self = concat (piece_tokens self))"

subsection \<open>Assumptions on the encoder\<close>

text \<open>
  The encoder's own contract: \<^verbatim>\<open>encode_ordinary\<close> splits the text with the pattern and
  encodes each piece on its own.
\<close>

definition piecewise_encoder :: "'c encoding \<Rightarrow> bool" where
  "piecewise_encoder encoding =
     (\<forall>t. enc_encode_ordinary encoding t =
            concat (encode_pieces encoding t (enc_finditer encoding t)))"

text \<open>Every match of the pattern ends inside the searched text.\<close>

definition matches_in_text :: "'c encoding \<Rightarrow> bool" where
  "matches_in_text encoding =
     (\<forall>t. \<forall>m \<in> set (enc_finditer encoding t). snd m \<le> length t)"

text \<open>The index of the first piece that an append reprocesses.\<close>

definition first_reprocessed :: "'c AppendOnlyPieceTokenCache \<Rightarrow> nat" where
  "first_reprocessed self =
     length (pieces self) - min (nat (backtrack_pieces self)) (length (pieces self))"

definition shift_span :: "nat \<Rightarrow> nat \<times> nat \<Rightarrow> nat \<times> nat" where
  "shift_span off m = (off + fst m, off + snd m)"

text \<open>
  The backtrack assumption for one append: the pieces in front of the reprocessed ones,
  followed by the matches of the pattern in the tail text behind them, are the matches of
  the pattern in the whole new text.
\<close>

definition backtrack_sufficient ::
  "'c encoding \<Rightarrow> 'c AppendOnlyPieceTokenCache \<Rightarrow> 'c list \<Rightarrow> bool" where
  "backtrack_sufficient encoding self delta =
     (delta = [] \<or> pieces self = [] \<or>
      (let start = first_reprocessed self;
           reprocess_start = fst (pieces self ! start);
           new_text = cache_text self @ delta
       in enc_finditer encoding new_text =
            take start (pieces self)
              @ map (shift_span reprocess_start)
                  (enc_finditer encoding (drop reprocess_start new_text))))"

text \<open>The backtrack assumption at every append of a sequence of calls.\<close>

fun backtrack_ok_calls ::
  "'c encoding \<Rightarrow> 'c AppendOnlyPieceTokenCache \<Rightarrow> 'c call list \<Rightarrow> bool" where
  "backtrack_ok_calls encoding self [] = True"
| "backtrack_ok_calls encoding self (Reset t # cs) =
     backtrack_ok_calls encoding (reset encoding self t) cs"
| "backtrack_ok_calls encoding self (Append d # cs) =
     (backtrack_sufficient encoding self d \<and>
      (case append_ordinary encoding self d of
         Inl e \<Rightarrow> True
       | Inr (self', td) \<Rightarrow> backtrack_ok_calls encoding self' cs))"

text \<open>
  The stable-split guarantee in its weak form: the stable tokens start the tokens of every
  right-extension of the text.
\<close>

definition stable_prefix_guarantee :: "'c encoding \<Rightarrow> bool" where
  "stable_prefix_guarantee encoding =
     (\<forall>t ext. prefix (enc_encode_with_unstable encoding t)
                (enc_encode_ordinary encoding (t @ ext)))"

text \<open>
  The stable-split guarantee in its full form: the tokens of every right-extension are the
  stable tokens followed by the tokens of the text that the stable tokens do not cover,
  extended.
\<close>

definition stable_split_guarantee :: "'c encoding \<Rightarrow> bool" where
  "stable_split_guarantee encoding =
     (\<forall>t ext. enc_encode_ordinary encoding (t @ ext) =
        enc_encode_with_unstable encoding t
          @ enc_encode_ordinary encoding
              (drop (length (enc_decode encoding (enc_encode_with_unstable encoding t))) t
                 @ ext))"

subsection \<open>Concrete encoders\<close>

text \<open>The matches of the pattern \<^verbatim>\<open>aab|a\<close>, scanning from offset \<open>i\<close>.\<close>

fun aab_matches :: "nat \<Rightarrow> string \<Rightarrow> (nat \<times> nat) list" where
  "aab_matches i [] = []"
| "aab_matches i (c # cs) =
     (if c # take 2 cs = ''aab'' then (i, i + 3) # aab_matches (i + 3) (drop 2 cs)
      else if c = CHR ''a'' then (i, i + 1) # aab_matches (i + 1) cs
      else aab_matches (i + 1) cs)"

text \<open>
  An encoder with the pattern \<^verbatim>\<open>aab|a\<close> whose only token for a piece is the length of
  the piece. Its decoder is broken: it answers \<^verbatim>\<open>?\<close> whatever the tokens are.
\<close>

definition aab_encoding :: "char encoding" where
  "aab_encoding =
     \<lparr>enc_finditer = aab_matches 0,
      enc_encode_single_piece = (\<lambda>p. [int (length p)]),
      enc_encode_ordinary =
        (\<lambda>t. concat (map (\<lambda>m. [int (length (group0 t m))]) (aab_matches 0 t))),
      enc_encode_with_unstable = (\<lambda>t. [int (length t)]),
      enc_decode = (\<lambda>ts. ''?'')\<rparr>"

text \<open>
  An encoder that emits token 7 for a leading \<^verbatim>\<open>a\<close> and then the length of the whole
  text; token 7 is its stable prefix.
\<close>

definition lead_encoding :: "char encoding" where
  "lead_encoding =
     \<lparr>enc_finditer = (\<lambda>t. []),
      enc_encode_single_piece = (\<lambda>p. []),
      enc_encode_ordinary =
        (\<lambda>t. if take 1 t = ''a'' then [7, int (length t)] else [int (length t)]),
      enc_encode_with_unstable = (\<lambda>t. if take 1 t = ''a'' then [7] else []),
      enc_decode = (\<lambda>ts. if ts = [7] then ''a'' else [])\<rparr>"

text \<open>
  An encoder with one token per character, its code; all but the last character are
  stable.
\<close>

definition char_encoding :: "char encoding" where
  "char_encoding =
     \<lparr>enc_finditer = (\<lambda>t. map (\<lambda>i. (i, i + 1)) [0..<length t]),
      enc_encode_single_piece = map of_char,
      enc_encode_ordinary = map of_char,
      enc_encode_with_unstable = (\<lambda>t. map of_char (butlast t)),
      enc_decode = map (\<lambda>k. char_of k)\<rparr>"

text \<open>
  An encoder whose pattern matches the empty string at the start of the text and nothing
  else, so that every text, the empty one too, has the one piece \<open>(0, 0)\<close>; its
  token for a piece is the length of the piece.
\<close>

definition start_encoding :: "char encoding" where
  "start_encoding =
     \<lparr>enc_finditer = (\<lambda>t. [(0, 0)]),
      enc_encode_single_piece = (\<lambda>p. [int (length p)]),
      enc_encode_ordinary = (\<lambda>t. [0]),
      enc_encode_with_unstable = (\<lambda>t. []),
      enc_decode = (\<lambda>ts. [])\<rparr>"

section \<open>Properties\<close>

subsection \<open>The loops and the branches of an append\<close>

lemma reset_loop_eq:
  "reset_loop enc t ms (ps, pts, toks) =
     (ps @ ms, pts @ encode_pieces enc t ms, toks @ concat (encode_pieces enc t ms))"
  by (induction ms arbitrary: ps pts toks) (simp_all add: encode_pieces_def Let_def)

lemma tail_loop_eq:
  "tail_loop enc tt off ms (ps, pts, toks) =
     (ps @ map (shift_span off) ms, pts @ encode_pieces enc tt ms,
      toks @ concat (encode_pieces enc tt ms))"
  by (induction ms arbitrary: ps pts toks) (simp_all add: encode_pieces_def shift_span_def Let_def)

lemma reset_eq:
  "reset enc c t =
     c\<lparr>cache_text := t, pieces := enc_finditer enc t,
       piece_tokens := encode_pieces enc t (enc_finditer enc t),
       tokens := concat (encode_pieces enc t (enc_finditer enc t))\<rparr>"
  by (simp add: reset_def reset_loop_eq)

lemma getitem_nat: "i < length xs \<Longrightarrow> getitem xs (int i) = Inr (xs ! i)"
  by (simp add: getitem_def)

lemma getitem_beyond: "int (length xs) \<le> i \<Longrightarrow> getitem xs i = Inl IndexError"
  by (simp add: getitem_def Let_def)

lemma slice_from_nat: "slice_from xs (int i) = drop i xs"
  by (simp add: slice_from_def slice_bound_def min_def)

lemma slice_to_nat: "slice_to xs (int i) = take i xs"
  by (simp add: slice_to_def slice_bound_def min_def)

lemma start_index:
  assumes "1 \<le> backtrack_pieces c" and "pieces c \<noteq> []"
  shows "int (length (pieces c)) - min (backtrack_pieces c) (int (length (pieces c)))
           = int (first_reprocessed c)"
    and "first_reprocessed c < length (pieces c)"
  using assms by (auto simp add: first_reprocessed_def min_def)

lemma append_empty_delta:
  "append_ordinary enc c [] = Inr (c, \<lparr>rollback_tokens = 0, tokens_to_append = []\<rparr>)"
  by (simp add: append_ordinary_def)

lemma append_no_pieces:
  assumes "delta \<noteq> []" and "pieces c = []"
  shows "append_ordinary enc c delta =
           Inr (reset enc c (cache_text c @ delta),
                \<lparr>rollback_tokens = int (length (tokens c)),
                 tokens_to_append = tokens (reset enc c (cache_text c @ delta))\<rparr>)"
  using assms by (simp add: append_ordinary_def Let_def reset_eq)

lemma append_bad_k:
  assumes "delta \<noteq> []" and "pieces c \<noteq> []" and "backtrack_pieces c < 1"
  shows "append_ordinary enc c delta = Inl IndexError"
proof -
  have "int (length (pieces c))
          \<le> int (length (pieces c)) - min (backtrack_pieces c) (int (length (pieces c)))"
    using assms(3) by (simp add: min_def)
  then show ?thesis
    using assms(1,2) by (simp add: append_ordinary_def Let_def getitem_beyond)
qed

lemma del_guard: "(if r \<noteq> 0 then del_last r xs else xs) = take (length xs - r) xs"
  by (simp add: del_last_def)

lemma append_populated:
  assumes "delta \<noteq> []" and "pieces c \<noteq> []" and "1 \<le> backtrack_pieces c"
  shows "append_ordinary enc c delta =
     (let st = first_reprocessed c;
          rs = fst (pieces c ! st);
          tt = drop rs (cache_text c @ delta);
          r = sum_list (map length (drop st (piece_tokens c)));
          new = encode_pieces enc tt (enc_finditer enc tt)
      in Inr (c\<lparr>cache_text := cache_text c @ delta,
                 pieces := take st (pieces c) @ map (shift_span rs) (enc_finditer enc tt),
                 piece_tokens := take st (piece_tokens c) @ new,
                 tokens := take (length (tokens c) - r) (tokens c) @ concat new\<rparr>,
              \<lparr>rollback_tokens = int r, tokens_to_append = concat new\<rparr>))"
  using assms start_index[OF assms(3,2)]
  unfolding append_ordinary_def Let_def del_guard
  by (simp add: getitem_nat slice_from_nat slice_to_nat tail_loop_eq)

lemma take_concat_drop:
  "take (length (concat xss) - sum_list (map length (drop n xss))) (concat xss)
     = concat (take n xss)"
proof -
  have "concat xss = concat (take n xss) @ concat (drop n xss)"
    by (metis append_take_drop_id concat_append)
  moreover have "length (concat (drop n xss)) = sum_list (map length (drop n xss))"
    by (simp add: length_concat)
  ultimately show ?thesis
    by (metis add_diff_cancel_right' append_eq_conv_conj length_append)
qed

lemma sum_drop_le: "sum_list (map length (drop n xss)) \<le> length (concat xss)"
proof -
  have "length (concat xss) = length (concat (take n xss)) + length (concat (drop n xss))"
    by (metis append_take_drop_id concat_append length_append)
  then show ?thesis by (simp add: length_concat)
qed

lemma append_returns:
  assumes "1 \<le> backtrack_pieces c"
  shows "\<exists>c' td. append_ordinary enc c d = Inr (c', td)
           \<and> backtrack_pieces c' = backtrack_pieces c
           \<and> cache_text c' = cache_text c @ d"
proof (cases "d = []")
  case True
  then show ?thesis by (simp add: append_empty_delta)
next
  case False
  show ?thesis
  proof (cases "pieces c = []")
    case True
    then show ?thesis using False by (simp add: append_no_pieces reset_eq)
  next
    case nonempty: False
    show ?thesis
      using append_populated[OF False nonempty assms, of enc] by (simp add: Let_def)
  qed
qed

lemma append_delta_consistent:
  assumes "append_ordinary enc c d = Inr (c', td)"
  shows "apply_delta (tokens c) td = tokens c'"
proof (cases "d = []")
  case True
  then show ?thesis using assms by (auto simp add: append_empty_delta apply_delta_def)
next
  case False
  show ?thesis
  proof (cases "pieces c = []")
    case True
    then show ?thesis
      using False assms by (auto simp add: append_no_pieces apply_delta_def)
  next
    case nonempty: False
    show ?thesis
    proof (cases "1 \<le> backtrack_pieces c")
      case True
      then show ?thesis
        using append_populated[OF False nonempty True, of enc] assms
        by (auto simp add: Let_def apply_delta_def)
    next
      case False
      then have "append_ordinary enc c d = Inl IndexError"
        using append_bad_k[OF \<open>d \<noteq> []\<close> nonempty] by simp
      then show ?thesis using assms by simp
    qed
  qed
qed

lemma append_P1_P4:
  assumes "P1 c" and "P4 c" and "append_ordinary enc c d = Inr (c', td)"
  shows "P1 c' \<and> P4 c'"
proof (cases "d = []")
  case True
  then show ?thesis using assms by (auto simp add: append_empty_delta)
next
  case False
  show ?thesis
  proof (cases "pieces c = []")
    case True
    then show ?thesis
      using False assms(3) by (auto simp add: append_no_pieces reset_eq P1_def P4_def encode_pieces_def)
  next
    case nonempty: False
    show ?thesis
    proof (cases "1 \<le> backtrack_pieces c")
      case True
      have "tokens c = concat (piece_tokens c)" using assms(1) by (simp add: P1_def)
      then show ?thesis
        using append_populated[OF False nonempty True, of enc] assms(2,3)
        by (auto simp add: Let_def P1_def P4_def take_concat_drop encode_pieces_def)
    next
      case False
      then have "append_ordinary enc c d = Inl IndexError"
        using append_bad_k[OF \<open>d \<noteq> []\<close> nonempty] by simp
      then show ?thesis using assms by simp
    qed
  qed
qed


lemma group0_shift: "group0 t (shift_span off m) = group0 (drop off t) m"
  by (simp add: group0_def shift_span_def add.commute)

lemma group0_append: "snd m \<le> length t \<Longrightarrow> group0 (t @ d) m = group0 t m"
  by (simp add: group0_def)

lemma encode_pieces_shift:
  "encode_pieces enc t (map (shift_span off) ms) = encode_pieces enc (drop off t) ms"
  by (simp add: encode_pieces_def group0_shift)

lemma encode_pieces_append:
  assumes "\<forall>m \<in> set ms. snd m \<le> length t"
  shows "encode_pieces enc (t @ d) ms = encode_pieces enc t ms"
  using assms by (simp add: encode_pieces_def group0_append)

lemma encode_pieces_take: "take n (encode_pieces enc t ms) = encode_pieces enc t (take n ms)"
  by (simp add: encode_pieces_def take_map)

lemma cold_reset: "cold enc (reset enc c t)"
  by (simp add: cold_def reset_eq)

lemma cold_P: 
  assumes "cold enc c"
  shows "P1 c" and "P2 enc c" and "P4 c" and "piecewise_encoder enc \<Longrightarrow> P3 enc c"
  using assms by (auto simp add: cold_def P1_def P2_def P3_def P4_def piecewise_encoder_def encode_pieces_def)

lemma append_cold:
  assumes "cold enc c" and "matches_in_text enc" and "backtrack_sufficient enc c d"
    and "append_ordinary enc c d = Inr (c', td)"
  shows "cold enc c'"
proof (cases "d = []")
  case True
  then show ?thesis using assms by (auto simp add: append_empty_delta)
next
  case False
  show ?thesis
  proof (cases "pieces c = []")
    case True
    then show ?thesis
      using False assms(4) by (auto simp add: append_no_pieces cold_reset)
  next
    case nonempty: False
    show ?thesis
    proof (cases "1 \<le> backtrack_pieces c")
      case True
      define st where "st = first_reprocessed c"
      define rs where "rs = fst (pieces c ! st)"
      define tt where "tt = drop rs (cache_text c @ d)"
      define new where "new = encode_pieces enc tt (enc_finditer enc tt)"
      have c': "c' = c\<lparr>cache_text := cache_text c @ d,
                      pieces := take st (pieces c) @ map (shift_span rs) (enc_finditer enc tt),
                      piece_tokens := take st (piece_tokens c) @ new,
                      tokens := take (length (tokens c)
                                  - sum_list (map length (drop st (piece_tokens c)))) (tokens c)
                                  @ concat new\<rparr>"
        using append_populated[OF False nonempty True, of enc] assms(4)
        by (simp add: Let_def st_def rs_def tt_def new_def)
      have old: "pieces c = enc_finditer enc (cache_text c)"
        "piece_tokens c = encode_pieces enc (cache_text c) (pieces c)"
        "tokens c = concat (piece_tokens c)"
        using assms(1) by (simp_all add: cold_def)
      have seg: "enc_finditer enc (cache_text c @ d)
                   = take st (pieces c) @ map (shift_span rs) (enc_finditer enc tt)"
        using assms(3) False nonempty
        by (simp add: backtrack_sufficient_def Let_def st_def rs_def tt_def)
      have inside: "\<forall>m \<in> set (take st (pieces c)). snd m \<le> length (cache_text c)"
        using assms(2) old(1) by (metis in_set_takeD matches_in_text_def)
      have kept: "take st (piece_tokens c) = encode_pieces enc (cache_text c @ d) (take st (pieces c))"
        using old(2) encode_pieces_append[OF inside] by (metis encode_pieces_take)
      have fresh: "new = encode_pieces enc (cache_text c @ d) (map (shift_span rs) (enc_finditer enc tt))"
        by (simp add: new_def tt_def encode_pieces_shift)
      have pts: "take st (piece_tokens c) @ new
                   = encode_pieces enc (cache_text c @ d)
                       (take st (pieces c) @ map (shift_span rs) (enc_finditer enc tt))"
        using kept fresh by (simp add: encode_pieces_def)
      have toks: "take (length (tokens c) - sum_list (map length (drop st (piece_tokens c))))
                    (tokens c) = concat (take st (piece_tokens c))"
        using old(3) by (simp add: take_concat_drop)
      show ?thesis
        unfolding cold_def c' using seg pts[symmetric] toks by simp
    next
      case False
      then have "append_ordinary enc c d = Inl IndexError"
        using append_bad_k[OF \<open>d \<noteq> []\<close> nonempty] by simp
      then show ?thesis using assms by simp
    qed
  qed
qed

lemma run_calls_P1_P4:
  assumes "1 \<le> backtrack_pieces c" and "P1 c" and "P4 c"
  shows "\<exists>c'. run_calls enc c calls = Inr c' \<and> P1 c' \<and> P4 c'"
  using assms
proof (induction calls arbitrary: c)
  case Nil
  then show ?case by simp
next
  case (Cons a calls)
  show ?case
  proof (cases a)
    case (Reset t)
    have "1 \<le> backtrack_pieces (reset enc c t)" "P1 (reset enc c t)" "P4 (reset enc c t)"
      using Cons.prems(1) cold_P(1,3)[OF cold_reset] by (simp_all add: reset_eq)
    then show ?thesis using Cons.IH Reset by simp
  next
    case (Append d)
    obtain c1 td where step: "append_ordinary enc c d = Inr (c1, td)"
      and k: "backtrack_pieces c1 = backtrack_pieces c"
      using append_returns[OF Cons.prems(1)] by blast
    have "P1 c1 \<and> P4 c1" using append_P1_P4[OF Cons.prems(2,3) step] .
    then show ?thesis using Cons.IH[of c1] k Cons.prems(1) step Append by simp
  qed
qed

lemma run_calls_cold:
  assumes "1 \<le> backtrack_pieces c" and "cold enc c" and "matches_in_text enc"
    and "backtrack_ok_calls enc c calls"
  shows "\<exists>c'. run_calls enc c calls = Inr c' \<and> cold enc c'"
  using assms(1,2,4)
proof (induction calls arbitrary: c)
  case Nil
  then show ?case by simp
next
  case (Cons a calls)
  show ?case
  proof (cases a)
    case (Reset t)
    have "1 \<le> backtrack_pieces (reset enc c t)"
      using Cons.prems(1) by (simp add: reset_eq)
    then show ?thesis using Cons.IH[OF _ cold_reset] Cons.prems(3) Reset by simp
  next
    case (Append d)
    obtain c1 td where step: "append_ordinary enc c d = Inr (c1, td)"
      and k: "backtrack_pieces c1 = backtrack_pieces c"
      using append_returns[OF Cons.prems(1)] by blast
    have suff: "backtrack_sufficient enc c d" and rest: "backtrack_ok_calls enc c1 calls"
      using Cons.prems(3) Append step by simp_all
    have "cold enc c1" using append_cold[OF Cons.prems(2) assms(3) suff step] .
    then show ?thesis using Cons.IH[of c1] k Cons.prems(1) rest step Append by simp
  qed
qed

lemma append_all_cold:
  assumes "1 \<le> backtrack_pieces c" and "cold enc c" and "matches_in_text enc"
    and "backtrack_ok_calls enc c (map Append ds)"
  shows "\<exists>c' tds. append_all enc c ds = Inr (c', tds) \<and> cold enc c'
           \<and> cache_text c' = cache_text c @ concat ds
           \<and> foldl apply_delta (tokens c) tds = tokens c'"
  using assms(1,2,4)
proof (induction ds arbitrary: c)
  case Nil
  then show ?case by simp
next
  case (Cons d ds)
  obtain c1 td where step: "append_ordinary enc c d = Inr (c1, td)"
    and k: "backtrack_pieces c1 = backtrack_pieces c"
    and ctext: "cache_text c1 = cache_text c @ d"
    using append_returns[OF Cons.prems(1)] by blast
  have suff: "backtrack_sufficient enc c d" and rest: "backtrack_ok_calls enc c1 (map Append ds)"
    using Cons.prems(3) step by simp_all
  have c1: "cold enc c1" using append_cold[OF Cons.prems(2) assms(3) suff step] .
  have "1 \<le> backtrack_pieces c1" using k Cons.prems(1) by simp
  from Cons.IH[OF this c1 rest] obtain c2 tds where
    tl: "append_all enc c1 ds = Inr (c2, tds)" "cold enc c2"
      "cache_text c2 = cache_text c1 @ concat ds"
      "foldl apply_delta (tokens c1) tds = tokens c2"
    by blast
  show ?case
    using step tl ctext append_delta_consistent[OF step] by simp
qed

subsection \<open>The concrete encoders\<close>

lemma take2_length: "take 2 cs = [x, y] \<Longrightarrow> 2 \<le> length cs"
  by (metis length_take min.cobounded1 length_Cons list.size(3) numeral_2_eq_2)

lemma aab_matches_bound: "m \<in> set (aab_matches i t) \<Longrightarrow> snd m \<le> i + length t"
proof (induction i t rule: aab_matches.induct)
  case (1 i)
  then show ?case by simp
next
  case (2 i c cs)
  show ?case
  proof (cases "c # take 2 cs = ''aab''")
    case True
    then have len: "2 \<le> length cs" using take2_length by auto
    from True "2.prems" have "m = (i, i + 3) \<or> m \<in> set (aab_matches (i + 3) (drop 2 cs))"
      by simp
    then show ?thesis
    proof
      assume "m = (i, i + 3)"
      then show ?thesis using len by simp
    next
      assume "m \<in> set (aab_matches (i + 3) (drop 2 cs))"
      then have "snd m \<le> i + 3 + length (drop 2 cs)" using "2.IH"(1)[OF True] by simp
      then show ?thesis using len by simp
    qed
  next
    case False
    show ?thesis
    proof (cases "c = CHR ''a''")
      case True
      from False True "2.prems" have "m = (i, i + 1) \<or> m \<in> set (aab_matches (i + 1) cs)"
        by simp
      then show ?thesis using "2.IH"(2)[OF False True] by auto
    next
      case notA: False
      from False notA "2.prems" have "m \<in> set (aab_matches (i + 1) cs)"
        by simp
      then show ?thesis using "2.IH"(3)[OF False notA] by auto
    qed
  qed
qed

lemma aab_matches_in_text: "matches_in_text aab_encoding"
  using aab_matches_bound[of _ 0] by (auto simp add: matches_in_text_def aab_encoding_def)

lemma aab_piecewise: "piecewise_encoder aab_encoding"
  by (simp add: piecewise_encoder_def aab_encoding_def encode_pieces_def)

lemma char_matches_in_text: "matches_in_text char_encoding"
  by (auto simp add: matches_in_text_def char_encoding_def)

lemma concat_singletons: "concat (map (\<lambda>i. [f (t ! i)]) [0..<length t]) = map f t"
proof -
  have "map (\<lambda>i. f (t ! i)) [0..<length t] = map f (map ((!) t) [0..<length t])"
    by simp
  then show ?thesis
    by (simp only: concat_map_singleton map_nth)
qed

lemma group0_single: "i < length t \<Longrightarrow> group0 t (i, Suc i) = [t ! i]"
  by (simp add: group0_def take_Suc hd_drop_conv_nth)

lemma char_piecewise: "piecewise_encoder char_encoding"
proof -
  have "concat (map (\<lambda>m. map of_char (group0 t m)) (map (\<lambda>i. (i, i + 1)) [0..<length t]))
          = (map of_char t :: int list)" for t :: string
  proof -
    have "map (\<lambda>m. map of_char (group0 t m)) (map (\<lambda>i. (i, i + 1)) [0..<length t])
            = map (\<lambda>i. [of_char (t ! i) :: int]) [0..<length t]"
      by (simp add: group0_single)
    then show ?thesis
      by (simp only: concat_singletons)
  qed
  then show ?thesis
    by (simp add: piecewise_encoder_def char_encoding_def encode_pieces_def)
qed

lemma char_stable_split: "stable_split_guarantee char_encoding"
proof -
  have "map of_char (butlast t) @ map of_char (drop (length t - Suc 0) t) = (map of_char t :: int list)"
    for t :: string
    by (cases t rule: rev_cases) simp_all
  then show ?thesis
    by (simp add: stable_split_guarantee_def char_encoding_def)
qed

lemma lead_stable_prefix: "stable_prefix_guarantee lead_encoding"
proof -
  have "take (Suc 0) (t @ ext) = take (Suc 0) t" if "take (Suc 0) t = ''a''" for t ext :: string
    using that by (cases t) simp_all
  then show ?thesis
    by (simp add: stable_prefix_guarantee_def lead_encoding_def)
qed

lemma start_piecewise: "piecewise_encoder start_encoding"
  by (simp add: piecewise_encoder_def start_encoding_def encode_pieces_def group0_def)

section \<open>The claims of the specification\<close>

subsection \<open>The fixed-prefix cache\<close>

text \<open>
  C1, as stated, fails. The encoder \<open>lead_encoding\<close> satisfies the stable-split guarantee
  in the form the claim gives it (the stable tokens are a token prefix of the tokens of every
  right-extension), construction on the prefix \<^verbatim>\<open>ab\<close> succeeds, and yet for the suffix
  \<^verbatim>\<open>c\<close> the cache answers \<open>[7, 2]\<close> where the encoder answers \<open>[7, 3]\<close> on
  \<^verbatim>\<open>abc\<close>: that the stable tokens start the result says nothing about the tokens
  behind them.
\<close>

theorem fixed_prefix_weak_guarantee_counterexample:
  "stable_prefix_guarantee lead_encoding
   \<and> FixedPrefixTokenCache_init lead_encoding ''ab''
       = Inr \<lparr>fp_prefix = ''ab'',
              fp_split = \<lparr>stable_tokens = [7], stable_text = ''a'', unstable_text = ''b''\<rparr>\<rparr>
   \<and> encode_ordinary lead_encoding
         \<lparr>fp_prefix = ''ab'',
          fp_split = \<lparr>stable_tokens = [7], stable_text = ''a'', unstable_text = ''b''\<rparr>\<rparr> ''c''
       = [7, 2]
   \<and> enc_encode_ordinary lead_encoding (''ab'' @ ''c'') = [7, 3]"
  using lead_stable_prefix
  by (simp add: FixedPrefixTokenCache_init_def stable_split_for_text_def encode_ordinary_def
      encode_ordinary_tail_def lead_encoding_def)

text \<open>
  C1, amended. Let the encoder satisfy the stable-split guarantee in its full form: for
  every text and every right-extension, the tokens of the extended text are the stable tokens
  of the text followed by the tokens of the uncovered rest of the text, extended. Then for
  every prefix \<open>p\<close> on which construction succeeds and every suffix \<open>s\<close>, the cache's
  \<open>encode_ordinary s\<close> equals the encoder's \<open>encode_ordinary\<close> of \<open>p @ s\<close>.
\<close>

theorem fixed_prefix_exact:
  assumes "stable_split_guarantee enc"
    and "FixedPrefixTokenCache_init enc p = Inr c"
  shows "encode_ordinary enc c s = enc_encode_ordinary enc (p @ s)"
proof -
  define st where "st = enc_encode_with_unstable enc p"
  have ok: "prefix (enc_decode enc st) p"
    using assms(2)
    by (auto simp add: FixedPrefixTokenCache_init_def stable_split_for_text_def Let_def st_def
        split: if_splits)
  then have c: "c = \<lparr>fp_prefix = p,
                     fp_split = \<lparr>stable_tokens = st, stable_text = enc_decode enc st,
                                 unstable_text = drop (length (enc_decode enc st)) p\<rparr>\<rparr>"
    using assms(2)
    by (simp add: FixedPrefixTokenCache_init_def stable_split_for_text_def Let_def st_def)
  have "enc_encode_ordinary enc (p @ s)
          = st @ enc_encode_ordinary enc (drop (length (enc_decode enc st)) p @ s)"
    using assms(1) unfolding stable_split_guarantee_def st_def by blast
  then show ?thesis
    by (simp add: c encode_ordinary_def encode_ordinary_tail_def)
qed

text \<open>
  The character encoder satisfies the full guarantee; with the prefix \<^verbatim>\<open>ab\<close> the stable
  part is the token of \<^verbatim>\<open>a\<close>, and the suffix \<^verbatim>\<open>c\<close> is encoded exactly.
\<close>

theorem fixed_prefix_exact_witness:
  "stable_split_guarantee char_encoding
   \<and> FixedPrefixTokenCache_init char_encoding ''ab''
       = Inr \<lparr>fp_prefix = ''ab'',
              fp_split = \<lparr>stable_tokens = [97], stable_text = ''a'', unstable_text = ''b''\<rparr>\<rparr>
   \<and> encode_ordinary char_encoding
         \<lparr>fp_prefix = ''ab'',
          fp_split = \<lparr>stable_tokens = [97], stable_text = ''a'', unstable_text = ''b''\<rparr>\<rparr> ''c''
       = enc_encode_ordinary char_encoding (''ab'' @ ''c'')"
proof -
  have init: "FixedPrefixTokenCache_init char_encoding ''ab''
       = Inr \<lparr>fp_prefix = ''ab'',
              fp_split = \<lparr>stable_tokens = [97], stable_text = ''a'', unstable_text = ''b''\<rparr>\<rparr>"
    by code_simp
  show ?thesis
    using char_stable_split init fixed_prefix_exact[OF char_stable_split init, of "''c''"]
    by simp
qed

text \<open>
  C5. \<open>stable_split_for_text\<close> fails with the stable-split mismatch exactly when the
  decoded stable tokens are not a character prefix of the text, and it fails in no other
  way. When it succeeds, the stable tokens are those of \<open>encode_with_unstable\<close>, the
  stable text is their decoding, and the decoded stable tokens followed by the unstable text
  are the text. A fixed-prefix cache that was constructed keeps the prefix and satisfies the
  same equation on it.
\<close>

theorem stable_split_result:
  "(stable_split_for_text enc t = Inl StableSplitMismatch
      \<longleftrightarrow> \<not> prefix (enc_decode enc (enc_encode_with_unstable enc t)) t)
   \<and> (\<forall>e. stable_split_for_text enc t = Inl e \<longrightarrow> e = StableSplitMismatch)
   \<and> (\<forall>s. stable_split_for_text enc t = Inr s \<longrightarrow>
          stable_tokens s = enc_encode_with_unstable enc t
          \<and> stable_text s = enc_decode enc (stable_tokens s)
          \<and> enc_decode enc (stable_tokens s) @ unstable_text s = t)
   \<and> (\<forall>c. FixedPrefixTokenCache_init enc t = Inr c \<longrightarrow>
          fp_prefix c = t
          \<and> enc_decode enc (stable_tokens (fp_split c)) @ unstable_text (fp_split c)
              = fp_prefix c)"
proof -
  have cut: "xs @ drop (length xs) t = t" if "prefix xs t" for xs :: "'a list"
    using that by (auto simp add: prefix_def)
  show ?thesis
    using cut[of "enc_decode enc (enc_encode_with_unstable enc t)"]
    by (auto simp add: stable_split_for_text_def FixedPrefixTokenCache_init_def Let_def
        split: if_splits)
qed

text \<open>
  Both outcomes occur: \<open>lead_encoding\<close> splits \<^verbatim>\<open>ab\<close> into the token of \<^verbatim>\<open>a\<close> and
  the rest \<^verbatim>\<open>b\<close>; the broken decoder of \<open>aab_encoding\<close> makes the split of \<^verbatim>\<open>aa\<close>
  fail.
\<close>

theorem stable_split_result_witness:
  "stable_split_for_text lead_encoding ''ab''
     = Inr \<lparr>stable_tokens = [7], stable_text = ''a'', unstable_text = ''b''\<rparr>
   \<and> enc_decode lead_encoding [7] @ ''b'' = ''ab''
   \<and> \<not> prefix (enc_decode aab_encoding (enc_encode_with_unstable aab_encoding ''aa'')) ''aa''
   \<and> stable_split_for_text aab_encoding ''aa'' = Inl StableSplitMismatch"
proof -
  have ok: "stable_split_for_text lead_encoding ''ab''
     = Inr \<lparr>stable_tokens = [7], stable_text = ''a'', unstable_text = ''b''\<rparr>"
    by (simp add: stable_split_for_text_def lead_encoding_def)
  have bad: "\<not> prefix (enc_decode aab_encoding (enc_encode_with_unstable aab_encoding ''aa'')) ''aa''"
    by (simp add: aab_encoding_def)
  have "enc_decode lead_encoding
          (stable_tokens \<lparr>stable_tokens = [7], stable_text = ''a'', unstable_text = ''b''\<rparr>)
          @ unstable_text \<lparr>stable_tokens = [7], stable_text = ''a'', unstable_text = ''b''\<rparr>
        = ''ab''"
    using stable_split_result[of lead_encoding "''ab''", THEN conjunct2, THEN conjunct2,
        THEN conjunct1, rule_format, OF ok]
    by blast
  then have dec: "enc_decode lead_encoding [7] @ ''b'' = ''ab''"
    by simp
  have failing: "stable_split_for_text aab_encoding ''aa'' = Inl StableSplitMismatch"
    using stable_split_result[of aab_encoding "''aa''", THEN conjunct1] bad by blast
  show ?thesis
    using ok bad dec failing by blast
qed

subsection \<open>Construction of the append-only cache\<close>

text \<open>
  C6. Construction fails with the invalid-argument error exactly when
  \<open>backtrack_pieces < 1\<close>. For every \<open>backtrack_pieces \<ge> 1\<close> and every initial text it
  succeeds, keeps \<open>backtrack_pieces\<close>, and the state it leaves is the state that
  \<open>reset\<close> with the initial text leaves, from whatever state with that
  \<open>backtrack_pieces\<close> it is called.
\<close>

theorem init_result:
  "(AppendOnlyPieceTokenCache_init enc t k = Inl InvalidArgument \<longleftrightarrow> k < 1)
   \<and> (1 \<le> k \<longrightarrow>
        (\<exists>c. AppendOnlyPieceTokenCache_init enc t k = Inr c
           \<and> backtrack_pieces c = k
           \<and> (\<forall>c0. backtrack_pieces c0 = k \<longrightarrow> reset enc c0 t = c)))"
  by (auto simp add: AppendOnlyPieceTokenCache_init_def reset_eq)

text \<open>
  With the pattern \<^verbatim>\<open>aab|a\<close>: the text \<^verbatim>\<open>aa\<close> and \<open>backtrack_pieces = 2\<close> give
  two pieces, a reset of another cache gives the same state, and \<open>backtrack_pieces = 0\<close>
  is refused.
\<close>

theorem init_result_witness:
  "(1::int) \<le> 2
   \<and> AppendOnlyPieceTokenCache_init aab_encoding ''aa'' 2
       = Inr \<lparr>backtrack_pieces = 2, cache_text = ''aa'', pieces = [(0, 1), (1, 2)],
              piece_tokens = [[1], [1]], tokens = [1, 1]\<rparr>
   \<and> reset aab_encoding
        \<lparr>backtrack_pieces = 2, cache_text = ''b'', pieces = [], piece_tokens = [], tokens = []\<rparr>
        ''aa''
       = \<lparr>backtrack_pieces = 2, cache_text = ''aa'', pieces = [(0, 1), (1, 2)],
          piece_tokens = [[1], [1]], tokens = [1, 1]\<rparr>
   \<and> AppendOnlyPieceTokenCache_init aab_encoding ''aa'' 0 = Inl InvalidArgument"
proof -
  have init: "AppendOnlyPieceTokenCache_init aab_encoding ''aa'' 2
       = Inr \<lparr>backtrack_pieces = 2, cache_text = ''aa'', pieces = [(0, 1), (1, 2)],
              piece_tokens = [[1], [1]], tokens = [1, 1]\<rparr>"
    by (simp add: AppendOnlyPieceTokenCache_init_def reset_eq encode_pieces_def group0_def
        aab_encoding_def)
  show ?thesis
    using init init_result[of aab_encoding "''aa''" 2] init_result[of aab_encoding "''aa''" 0]
    by simp
qed

subsection \<open>Single appends\<close>

text \<open>
  C7. In every cache state, an append of the empty delta returns a delta with
  \<open>rollback_tokens = 0\<close> and no tokens to append, and the cache state after the call is
  the state before it, field by field.
\<close>

theorem append_empty_noop:
  "append_ordinary enc c [] = Inr (c, \<lparr>rollback_tokens = 0, tokens_to_append = []\<rparr>)"
  by (simp add: append_ordinary_def)

text \<open>
  C8, as stated, fails. A cache built from the empty text need not be without pieces: with
  \<open>start_encoding\<close>, whose pattern matches the empty string, the cache built from the
  empty text with \<open>backtrack_pieces = 2\<close> holds the piece \<open>(0, 0)\<close> and the token
  \<open>[0]\<close>. Appending \<^verbatim>\<open>hello world\<close> then takes the populated branch and returns
  \<open>rollback_tokens = 1\<close>, not 0.
\<close>

theorem append_cold_start_counterexample:
  "piecewise_encoder start_encoding
   \<and> AppendOnlyPieceTokenCache_init start_encoding [] 2
       = Inr \<lparr>backtrack_pieces = 2, cache_text = [], pieces = [(0, 0)], piece_tokens = [[0]],
              tokens = [0]\<rparr>
   \<and> append_ordinary start_encoding
        \<lparr>backtrack_pieces = 2, cache_text = [], pieces = [(0, 0)], piece_tokens = [[0]],
         tokens = [0]\<rparr>
        ''hello world''
       = Inr (\<lparr>backtrack_pieces = 2, cache_text = ''hello world'', pieces = [(0, 0)],
               piece_tokens = [[0]], tokens = [0]\<rparr>,
              \<lparr>rollback_tokens = 1, tokens_to_append = [0]\<rparr>)"
proof -
  have init: "AppendOnlyPieceTokenCache_init start_encoding [] 2
       = Inr \<lparr>backtrack_pieces = 2, cache_text = [], pieces = [(0, 0)], piece_tokens = [[0]],
              tokens = [0]\<rparr>"
    by code_simp
  have step: "append_ordinary start_encoding
        \<lparr>backtrack_pieces = 2, cache_text = [], pieces = [(0, 0)], piece_tokens = [[0]],
         tokens = [0]\<rparr>
        ''hello world''
       = Inr (\<lparr>backtrack_pieces = 2, cache_text = ''hello world'', pieces = [(0, 0)],
               piece_tokens = [[0]], tokens = [0]\<rparr>,
              \<lparr>rollback_tokens = 1, tokens_to_append = [0]\<rparr>)"
    by code_simp
  show ?thesis
    using start_piecewise init step by simp
qed

text \<open>
  C8, amended. Let the encoder be piecewise and let its pattern have no match in the empty
  text. Then the cache built from the empty text, with any \<open>backtrack_pieces\<close> the
  construction accepts, holds no text, no pieces and no tokens, and an append of a non-empty
  delta to it returns \<open>rollback_tokens = 0\<close> and, as \<open>tokens_to_append\<close>, the encoder's
  \<open>encode_ordinary\<close> of the new full text, which is the delta; the state after the call
  is the reset on the new full text.
\<close>

theorem append_cold_start:
  assumes "piecewise_encoder enc" and "enc_finditer enc [] = []"
    and "AppendOnlyPieceTokenCache_init enc [] k = Inr c" and "d \<noteq> []"
  shows "cache_text c = [] \<and> pieces c = [] \<and> tokens c = []
         \<and> append_ordinary enc c d =
             Inr (reset enc c d,
                  \<lparr>rollback_tokens = 0, tokens_to_append = enc_encode_ordinary enc d\<rparr>)"
proof -
  have c: "c = reset enc \<lparr>backtrack_pieces = k, cache_text = [], pieces = [],
                   piece_tokens = [], tokens = []\<rparr> []"
    using assms(3) by (auto simp add: AppendOnlyPieceTokenCache_init_def split: if_splits)
  have empty: "cache_text c = []" "pieces c = []" "tokens c = []"
    unfolding c using assms(2) by (simp_all add: reset_eq encode_pieces_def)
  have "tokens (reset enc c d) = enc_encode_ordinary enc d"
    using assms(1) by (simp add: reset_eq piecewise_encoder_def)
  then show ?thesis
    using append_no_pieces[OF assms(4) empty(2), of enc] empty by simp
qed

text \<open>
  The cache built from the empty text with \<open>backtrack_pieces = 2\<close> and the delta
  \<^verbatim>\<open>hello world\<close>, with the character encoder, whose pattern has no match in the
  empty text.
\<close>

theorem append_cold_start_witness:
  "piecewise_encoder char_encoding
   \<and> enc_finditer char_encoding [] = []
   \<and> AppendOnlyPieceTokenCache_init char_encoding [] 2
       = Inr \<lparr>backtrack_pieces = 2, cache_text = [], pieces = [], piece_tokens = [],
              tokens = []\<rparr>
   \<and> append_ordinary char_encoding
        \<lparr>backtrack_pieces = 2, cache_text = [], pieces = [], piece_tokens = [], tokens = []\<rparr>
        ''hello world''
       = Inr (reset char_encoding
                \<lparr>backtrack_pieces = 2, cache_text = [], pieces = [], piece_tokens = [],
                 tokens = []\<rparr> ''hello world'',
              \<lparr>rollback_tokens = 0,
               tokens_to_append = enc_encode_ordinary char_encoding ''hello world''\<rparr>)
   \<and> enc_encode_ordinary char_encoding ''hello world''
       = [104, 101, 108, 108, 111, 32, 119, 111, 114, 108, 100]"
proof -
  let ?c = "\<lparr>backtrack_pieces = 2, cache_text = [], pieces = [], piece_tokens = [],
             tokens = []\<rparr> :: char AppendOnlyPieceTokenCache"
  have nomatch: "enc_finditer char_encoding [] = []"
    by (simp add: char_encoding_def)
  have init: "AppendOnlyPieceTokenCache_init char_encoding [] 2 = Inr ?c"
    by (simp add: AppendOnlyPieceTokenCache_init_def reset_eq encode_pieces_def
        char_encoding_def)
  have d: "''hello world'' \<noteq> []" by simp
  have toks: "enc_encode_ordinary char_encoding ''hello world''
       = [104, 101, 108, 108, 111, 32, 119, 111, 114, 108, 100]"
    by (simp add: char_encoding_def)
  have "append_ordinary char_encoding ?c ''hello world''
       = Inr (reset char_encoding ?c ''hello world'',
              \<lparr>rollback_tokens = 0,
               tokens_to_append = enc_encode_ordinary char_encoding ''hello world''\<rparr>)"
    using append_cold_start[OF char_piecewise nomatch init d] by blast
  then show ?thesis
    using char_piecewise nomatch init toks by simp
qed

text \<open>
  C9. In a state with \<open>backtrack_pieces \<ge> 1\<close> in which P1 and P4 hold, every append
  returns, and the returned \<open>rollback_tokens\<close> lies between 0 and the number of tokens
  held before the call. When the delta is not empty and the cache has pieces, it is the
  total number of tokens of the last \<open>min backtrack_pieces (len pieces)\<close> pieces.
\<close>

theorem rollback_bounds:
  assumes "1 \<le> backtrack_pieces c" and "P1 c" and "P4 c"
  shows "\<exists>c' td. append_ordinary enc c d = Inr (c', td)
           \<and> 0 \<le> rollback_tokens td
           \<and> rollback_tokens td \<le> int (length (tokens c))
           \<and> (d \<noteq> [] \<and> pieces c \<noteq> [] \<longrightarrow>
                rollback_tokens td =
                  int (length (concat
                    (drop (length (piece_tokens c)
                             - min (nat (backtrack_pieces c)) (length (pieces c)))
                       (piece_tokens c)))))"
proof (cases "d = []")
  case True
  then show ?thesis by (simp add: append_empty_delta)
next
  case False
  show ?thesis
  proof (cases "pieces c = []")
    case True
    then show ?thesis using False by (simp add: append_no_pieces)
  next
    case nonempty: False
    have toks: "tokens c = concat (piece_tokens c)" using assms(2) by (simp add: P1_def)
    have len: "length (piece_tokens c) = length (pieces c)" using assms(3) by (simp add: P4_def)
    have "sum_list (map length (drop (first_reprocessed c) (piece_tokens c)))
            \<le> length (tokens c)"
      unfolding toks by (rule sum_drop_le)
    then show ?thesis
      using append_populated[OF False nonempty assms(1), of enc] False nonempty len
      by (simp add: Let_def first_reprocessed_def length_concat)
  qed
qed

text \<open>
  Two pieces of one token each, \<open>backtrack_pieces = 1\<close>: the rollback is the one token of
  the last piece.
\<close>

theorem rollback_bounds_witness:
  "append_ordinary aab_encoding
     \<lparr>backtrack_pieces = 1, cache_text = ''aa'', pieces = [(0, 1), (1, 2)],
      piece_tokens = [[1], [1]], tokens = [1, 1]\<rparr> ''b''
     = Inr (\<lparr>backtrack_pieces = 1, cache_text = ''aab'', pieces = [(0, 1), (1, 2)],
             piece_tokens = [[1], [1]], tokens = [1, 1]\<rparr>,
            \<lparr>rollback_tokens = 1, tokens_to_append = [1]\<rparr>)
   \<and> (0::int) \<le> 1 \<and> (1::int) \<le> int (length [1, 1 :: int])
   \<and> (1::int) = int (length (concat (drop (length [[1], [1 :: int]]
                        - min (nat 1) (length [(0, 1), (1, 2 :: nat)])) [[1], [1 :: int]])))"
proof -
  let ?c = "\<lparr>backtrack_pieces = 1, cache_text = ''aa'', pieces = [(0, 1), (1, 2)],
      piece_tokens = [[1], [1]], tokens = [1, 1]\<rparr> :: char AppendOnlyPieceTokenCache"
  have k: "1 \<le> backtrack_pieces ?c" and p1: "P1 ?c" and p4: "P4 ?c"
    by (simp_all add: P1_def P4_def)
  have step: "append_ordinary aab_encoding ?c ''b''
     = Inr (\<lparr>backtrack_pieces = 1, cache_text = ''aab'', pieces = [(0, 1), (1, 2)],
             piece_tokens = [[1], [1]], tokens = [1, 1]\<rparr>,
            \<lparr>rollback_tokens = 1, tokens_to_append = [1]\<rparr>)"
    by code_simp
  from rollback_bounds[OF k p1 p4, of aab_encoding "''b''"] obtain c' td where
    ret: "append_ordinary aab_encoding ?c ''b'' = Inr (c', td)"
    and lo: "0 \<le> rollback_tokens td"
    and hi: "rollback_tokens td \<le> int (length (tokens ?c))"
    and eq: "''b'' \<noteq> [] \<and> pieces ?c \<noteq> [] \<longrightarrow>
               rollback_tokens td =
                 int (length (concat (drop (length (piece_tokens ?c)
                        - min (nat (backtrack_pieces ?c)) (length (pieces ?c)))
                      (piece_tokens ?c))))"
    by blast
  have td: "td = \<lparr>rollback_tokens = 1, tokens_to_append = [1]\<rparr>"
    using ret step by simp
  show ?thesis
    using step lo hi eq unfolding td by simp
qed

text \<open>
  C10. Whenever an append returns, in whatever state and with whatever
  \<open>backtrack_pieces\<close>, the tokens held before the call without their last
  \<open>rollback_tokens\<close> elements, followed by \<open>tokens_to_append\<close>, are the tokens held
  after the call. With \<open>backtrack_pieces \<ge> 1\<close> every append returns.
\<close>

theorem delta_reproduces_tokens:
  "(1 \<le> backtrack_pieces c \<longrightarrow> (\<exists>c' td. append_ordinary enc c d = Inr (c', td)))
   \<and> (\<forall>c' td. append_ordinary enc c d = Inr (c', td) \<longrightarrow>
          apply_delta (tokens c) td = tokens c')"
  using append_returns[of c enc d] append_delta_consistent[of enc c d] by blast

text \<open>
  With the pattern \<^verbatim>\<open>aab|a\<close> and \<open>backtrack_pieces = 1\<close>, appending \<^verbatim>\<open>b\<close> to
  \<^verbatim>\<open>aa\<close> leaves the tokens \<open>[1, 1]\<close>, which the delta reproduces, although the
  encoder gives \<open>[3]\<close> for \<^verbatim>\<open>aab\<close>.
\<close>

theorem delta_reproduces_tokens_witness:
  "(1::int) \<le> 1
   \<and> append_ordinary aab_encoding
     \<lparr>backtrack_pieces = 1, cache_text = ''aa'', pieces = [(0, 1), (1, 2)],
      piece_tokens = [[1], [1]], tokens = [1, 1]\<rparr> ''b''
     = Inr (\<lparr>backtrack_pieces = 1, cache_text = ''aab'', pieces = [(0, 1), (1, 2)],
             piece_tokens = [[1], [1]], tokens = [1, 1]\<rparr>,
            \<lparr>rollback_tokens = 1, tokens_to_append = [1]\<rparr>)
   \<and> apply_delta [1, 1] \<lparr>rollback_tokens = 1, tokens_to_append = [1]\<rparr> = [1, 1]
   \<and> enc_encode_ordinary aab_encoding ''aab'' = [3]"
proof -
  let ?c = "\<lparr>backtrack_pieces = 1, cache_text = ''aa'', pieces = [(0, 1), (1, 2)],
      piece_tokens = [[1], [1]], tokens = [1, 1]\<rparr> :: char AppendOnlyPieceTokenCache"
  have step: "append_ordinary aab_encoding ?c ''b''
     = Inr (\<lparr>backtrack_pieces = 1, cache_text = ''aab'', pieces = [(0, 1), (1, 2)],
             piece_tokens = [[1], [1]], tokens = [1, 1]\<rparr>,
            \<lparr>rollback_tokens = 1, tokens_to_append = [1]\<rparr>)"
    by code_simp
  have cold: "enc_encode_ordinary aab_encoding ''aab'' = [3]"
    by code_simp
  have "apply_delta (tokens ?c) \<lparr>rollback_tokens = 1, tokens_to_append = [1]\<rparr>
          = tokens \<lparr>backtrack_pieces = 1, cache_text = ''aab'', pieces = [(0, 1), (1, 2)],
             piece_tokens = [[1], [1]], tokens = [1, 1]\<rparr>"
    using delta_reproduces_tokens[of ?c aab_encoding "''b''", THEN conjunct2, rule_format,
        OF step] .
  then show ?thesis using step cold by simp
qed

subsection \<open>Sequences of calls\<close>

text \<open>
  C4. After construction and after every sequence of resets and appends that follows it,
  whatever the \<open>backtrack_pieces\<close> the construction accepted, the calls all return, the
  flat tokens are the concatenation of \<open>piece_tokens\<close> (P1), and \<open>pieces\<close> and
  \<open>piece_tokens\<close> have the same length (P4).
\<close>

theorem P1_P4_after_every_call:
  assumes "AppendOnlyPieceTokenCache_init enc t k = Inr c0"
  shows "\<exists>c. run_calls enc c0 calls = Inr c \<and> P1 c \<and> P4 c"
proof -
  have k: "1 \<le> k" and c0: "c0 = reset enc \<lparr>backtrack_pieces = k, cache_text = [], pieces = [],
                   piece_tokens = [], tokens = []\<rparr> t"
    using assms by (auto simp add: AppendOnlyPieceTokenCache_init_def split: if_splits)
  have "1 \<le> backtrack_pieces c0" using k c0 by (simp add: reset_eq)
  moreover have "P1 c0" "P4 c0" unfolding c0 using cold_P(1,3)[OF cold_reset] by blast+
  ultimately show ?thesis by (rule run_calls_P1_P4)
qed

text \<open>
  A run with \<open>backtrack_pieces = 1\<close> through an append that leaves a stale segmentation,
  an empty append, a reset and another append.
\<close>

theorem P1_P4_after_every_call_witness:
  "AppendOnlyPieceTokenCache_init aab_encoding ''aa'' 1
       = Inr \<lparr>backtrack_pieces = 1, cache_text = ''aa'', pieces = [(0, 1), (1, 2)],
              piece_tokens = [[1], [1]], tokens = [1, 1]\<rparr>
   \<and> run_calls aab_encoding
        \<lparr>backtrack_pieces = 1, cache_text = ''aa'', pieces = [(0, 1), (1, 2)],
         piece_tokens = [[1], [1]], tokens = [1, 1]\<rparr>
        [Append ''b'', Append [], Reset ''xa'', Append ''ab'']
       = Inr \<lparr>backtrack_pieces = 1, cache_text = ''xaab'', pieces = [(1, 4)],
              piece_tokens = [[3]], tokens = [3]\<rparr>
   \<and> P1 \<lparr>backtrack_pieces = 1, cache_text = ''xaab'', pieces = [(1, 4)],
          piece_tokens = [[3]], tokens = [3]\<rparr>
   \<and> P4 \<lparr>backtrack_pieces = 1, cache_text = ''xaab'', pieces = [(1, 4)],
          piece_tokens = [[3]], tokens = [3]\<rparr>"
proof -
  let ?c0 = "\<lparr>backtrack_pieces = 1, cache_text = ''aa'', pieces = [(0, 1), (1, 2)],
              piece_tokens = [[1], [1]], tokens = [1, 1]\<rparr> :: char AppendOnlyPieceTokenCache"
  let ?calls = "[Append ''b'', Append [], Reset ''xa'', Append ''ab'']"
  have init: "AppendOnlyPieceTokenCache_init aab_encoding ''aa'' 1 = Inr ?c0"
    by code_simp
  have run: "run_calls aab_encoding ?c0 ?calls
       = Inr \<lparr>backtrack_pieces = 1, cache_text = ''xaab'', pieces = [(1, 4)],
              piece_tokens = [[3]], tokens = [3]\<rparr>"
    by code_simp
  from P1_P4_after_every_call[OF init, of ?calls] obtain c where
    "run_calls aab_encoding ?c0 ?calls = Inr c" and "P1 c" and "P4 c"
    by blast
  then show ?thesis using init run by simp
qed

text \<open>
  C2, as stated, fails. With the pattern \<^verbatim>\<open>aab|a\<close> and \<open>backtrack_pieces = 1\<close>, the
  cache built from \<^verbatim>\<open>aa\<close> holds the pieces \<open>(0, 1)\<close> and \<open>(1, 2)\<close>. Appending
  \<^verbatim>\<open>b\<close> reprocesses the last piece only, from offset 1, where the tail \<^verbatim>\<open>ab\<close>
  matches \<^verbatim>\<open>a\<close> again: the pieces stay \<open>(0, 1)\<close>, \<open>(1, 2)\<close> and the tokens
  \<open>[1, 1]\<close>, while a run over \<^verbatim>\<open>aab\<close> from scratch gives the one piece
  \<open>(0, 3)\<close> and the tokens \<open>[3]\<close>. So neither P2 nor P3 holds after the append.
\<close>

theorem append_segmentation_counterexample:
  "piecewise_encoder aab_encoding \<and> matches_in_text aab_encoding
   \<and> AppendOnlyPieceTokenCache_init aab_encoding ''aa'' 1
       = Inr \<lparr>backtrack_pieces = 1, cache_text = ''aa'', pieces = [(0, 1), (1, 2)],
              piece_tokens = [[1], [1]], tokens = [1, 1]\<rparr>
   \<and> append_ordinary aab_encoding
        \<lparr>backtrack_pieces = 1, cache_text = ''aa'', pieces = [(0, 1), (1, 2)],
         piece_tokens = [[1], [1]], tokens = [1, 1]\<rparr> ''b''
       = Inr (\<lparr>backtrack_pieces = 1, cache_text = ''aab'', pieces = [(0, 1), (1, 2)],
               piece_tokens = [[1], [1]], tokens = [1, 1]\<rparr>,
              \<lparr>rollback_tokens = 1, tokens_to_append = [1]\<rparr>)
   \<and> enc_finditer aab_encoding ''aab'' = [(0, 3)]
   \<and> enc_encode_ordinary aab_encoding ''aab'' = [3]
   \<and> \<not> P2 aab_encoding
         \<lparr>backtrack_pieces = 1, cache_text = ''aab'', pieces = [(0, 1), (1, 2)],
          piece_tokens = [[1], [1]], tokens = [1, 1]\<rparr>
   \<and> \<not> P3 aab_encoding
         \<lparr>backtrack_pieces = 1, cache_text = ''aab'', pieces = [(0, 1), (1, 2)],
          piece_tokens = [[1], [1]], tokens = [1, 1]\<rparr>"
proof -
  have init: "AppendOnlyPieceTokenCache_init aab_encoding ''aa'' 1
       = Inr \<lparr>backtrack_pieces = 1, cache_text = ''aa'', pieces = [(0, 1), (1, 2)],
              piece_tokens = [[1], [1]], tokens = [1, 1]\<rparr>"
    by code_simp
  have step: "append_ordinary aab_encoding
        \<lparr>backtrack_pieces = 1, cache_text = ''aa'', pieces = [(0, 1), (1, 2)],
         piece_tokens = [[1], [1]], tokens = [1, 1]\<rparr> ''b''
       = Inr (\<lparr>backtrack_pieces = 1, cache_text = ''aab'', pieces = [(0, 1), (1, 2)],
               piece_tokens = [[1], [1]], tokens = [1, 1]\<rparr>,
              \<lparr>rollback_tokens = 1, tokens_to_append = [1]\<rparr>)"
    by code_simp
  have fi: "enc_finditer aab_encoding ''aab'' = [(0, 3)]"
    by code_simp
  have eo: "enc_encode_ordinary aab_encoding ''aab'' = [3]"
    by code_simp
  show ?thesis
    using aab_piecewise aab_matches_in_text init step fi eo
    by (simp add: P2_def P3_def)
qed

text \<open>
  C2, amended. Let the encoder be piecewise with matches inside the text. Construction
  leaves the state of a reset, and after a reset from any state with
  \<open>backtrack_pieces \<ge> 1\<close>, and after every sequence of calls that follows it, P2 and P3
  hold, provided each append of the sequence satisfies the backtrack assumption: the pieces
  in front of the reprocessed ones, followed by the matches in the tail text, are the
  matches in the whole new text. They do not hold for every \<open>backtrack_pieces\<close>.
\<close>

theorem P2_P3_under_backtrack:
  assumes "1 \<le> backtrack_pieces c"
    and "piecewise_encoder enc" and "matches_in_text enc"
    and "backtrack_ok_calls enc (reset enc c t) calls"
  shows "AppendOnlyPieceTokenCache_init enc t (backtrack_pieces c) = Inr (reset enc c t)
         \<and> (\<exists>c'. run_calls enc (reset enc c t) calls = Inr c' \<and> P2 enc c' \<and> P3 enc c')"
proof -
  have built: "AppendOnlyPieceTokenCache_init enc t (backtrack_pieces c) = Inr (reset enc c t)"
    using assms(1) by (simp add: AppendOnlyPieceTokenCache_init_def reset_eq)
  have "1 \<le> backtrack_pieces (reset enc c t)" using assms(1) by (simp add: reset_eq)
  then obtain c' where "run_calls enc (reset enc c t) calls = Inr c'" and "cold enc c'"
    using run_calls_cold[OF _ cold_reset assms(3,4)] by blast
  then show ?thesis using built cold_P(2,4)[of enc c'] assms(2) by blast
qed

text \<open>
  From the stale state of the counterexample, a reset to \<^verbatim>\<open>a\<close> and two appends that
  satisfy the backtrack assumption with \<open>backtrack_pieces = 1\<close>.
\<close>

theorem P2_P3_under_backtrack_witness:
  "piecewise_encoder aab_encoding \<and> matches_in_text aab_encoding
   \<and> (1::int) \<le> 1
   \<and> \<not> P2 aab_encoding
         \<lparr>backtrack_pieces = 1, cache_text = ''aab'', pieces = [(0, 1), (1, 2)],
          piece_tokens = [[1], [1]], tokens = [1, 1]\<rparr>
   \<and> reset aab_encoding
        \<lparr>backtrack_pieces = 1, cache_text = ''aab'', pieces = [(0, 1), (1, 2)],
         piece_tokens = [[1], [1]], tokens = [1, 1]\<rparr> ''a''
       = \<lparr>backtrack_pieces = 1, cache_text = ''a'', pieces = [(0, 1)],
          piece_tokens = [[1]], tokens = [1]\<rparr>
   \<and> backtrack_ok_calls aab_encoding
        \<lparr>backtrack_pieces = 1, cache_text = ''a'', pieces = [(0, 1)],
         piece_tokens = [[1]], tokens = [1]\<rparr>
        [Append ''ab'', Append ''a'']
   \<and> run_calls aab_encoding
        \<lparr>backtrack_pieces = 1, cache_text = ''a'', pieces = [(0, 1)],
         piece_tokens = [[1]], tokens = [1]\<rparr>
        [Append ''ab'', Append ''a'']
       = Inr \<lparr>backtrack_pieces = 1, cache_text = ''aaba'', pieces = [(0, 3), (3, 4)],
              piece_tokens = [[3], [1]], tokens = [3, 1]\<rparr>
   \<and> P2 aab_encoding \<lparr>backtrack_pieces = 1, cache_text = ''aaba'', pieces = [(0, 3), (3, 4)],
              piece_tokens = [[3], [1]], tokens = [3, 1]\<rparr>
   \<and> P3 aab_encoding \<lparr>backtrack_pieces = 1, cache_text = ''aaba'', pieces = [(0, 3), (3, 4)],
              piece_tokens = [[3], [1]], tokens = [3, 1]\<rparr>"
proof -
  let ?c = "\<lparr>backtrack_pieces = 1, cache_text = ''aab'', pieces = [(0, 1), (1, 2)],
             piece_tokens = [[1], [1]], tokens = [1, 1]\<rparr> :: char AppendOnlyPieceTokenCache"
  let ?r = "\<lparr>backtrack_pieces = 1, cache_text = ''a'', pieces = [(0, 1)],
             piece_tokens = [[1]], tokens = [1]\<rparr> :: char AppendOnlyPieceTokenCache"
  let ?calls = "[Append ''ab'', Append ''a'']"
  have k: "1 \<le> backtrack_pieces ?c" by simp
  have stale: "\<not> P2 aab_encoding ?c"
    by code_simp
  have r: "reset aab_encoding ?c ''a'' = ?r"
    by code_simp
  have ok: "backtrack_ok_calls aab_encoding ?r ?calls"
    by code_simp
  have run: "run_calls aab_encoding ?r ?calls
       = Inr \<lparr>backtrack_pieces = 1, cache_text = ''aaba'', pieces = [(0, 3), (3, 4)],
              piece_tokens = [[3], [1]], tokens = [3, 1]\<rparr>"
    by code_simp
  have ok': "backtrack_ok_calls aab_encoding (reset aab_encoding ?c ''a'') ?calls"
    unfolding r by (rule ok)
  from P2_P3_under_backtrack[OF k aab_piecewise aab_matches_in_text ok', THEN conjunct2]
  obtain c' where "run_calls aab_encoding ?r ?calls = Inr c'"
    and "P2 aab_encoding c'" and "P3 aab_encoding c'"
    unfolding r by blast
  then show ?thesis using aab_piecewise aab_matches_in_text stale r ok run by simp
qed

text \<open>
  C3. Let the encoder be piecewise with matches inside the text, and let the backtrack
  assumption hold at each append. Then for every initial text \<open>t\<close> and every sequence of
  deltas \<open>ds\<close>, all appends to the cache built from \<open>t\<close> return, the cache then holds
  the text \<open>t @ concat ds\<close> and the encoder's \<open>encode_ordinary\<close> of it as tokens, and
  applying the returned deltas in order to the tokens of the initial cache gives the same
  tokens.
\<close>

theorem append_all_tokens_cold:
  assumes "AppendOnlyPieceTokenCache_init enc t k = Inr c0"
    and "piecewise_encoder enc" and "matches_in_text enc"
    and "backtrack_ok_calls enc c0 (map Append ds)"
  shows "\<exists>c tds. append_all enc c0 ds = Inr (c, tds)
           \<and> cache_text c = t @ concat ds
           \<and> tokens c = enc_encode_ordinary enc (t @ concat ds)
           \<and> foldl apply_delta (tokens c0) tds = enc_encode_ordinary enc (t @ concat ds)"
proof -
  have k: "1 \<le> k" and c0: "c0 = reset enc \<lparr>backtrack_pieces = k, cache_text = [], pieces = [],
                   piece_tokens = [], tokens = []\<rparr> t"
    using assms(1) by (auto simp add: AppendOnlyPieceTokenCache_init_def split: if_splits)
  have k0: "1 \<le> backtrack_pieces c0" and t0: "cache_text c0 = t"
    using k c0 by (simp_all add: reset_eq)
  have "cold enc c0" unfolding c0 by (rule cold_reset)
  from append_all_cold[OF k0 this assms(3,4)] obtain c tds where
    run: "append_all enc c0 ds = Inr (c, tds)" and cold: "cold enc c"
    and tx: "cache_text c = cache_text c0 @ concat ds"
    and replay: "foldl apply_delta (tokens c0) tds = tokens c"
    by blast
  have "tokens c = enc_encode_ordinary enc (cache_text c)"
    using cold_P(4)[OF cold assms(2)] by (simp add: P3_def)
  then show ?thesis using run tx replay t0 by simp
qed

text \<open>
  With the pattern \<^verbatim>\<open>aab|a\<close> and \<open>backtrack_pieces = 2\<close>: \<^verbatim>\<open>aa\<close>, then
  \<^verbatim>\<open>b\<close>, which merges the two pieces into one, then \<^verbatim>\<open>a\<close>.
\<close>

theorem append_all_tokens_cold_witness:
  "piecewise_encoder aab_encoding \<and> matches_in_text aab_encoding
   \<and> AppendOnlyPieceTokenCache_init aab_encoding ''aa'' 2
       = Inr \<lparr>backtrack_pieces = 2, cache_text = ''aa'', pieces = [(0, 1), (1, 2)],
              piece_tokens = [[1], [1]], tokens = [1, 1]\<rparr>
   \<and> backtrack_ok_calls aab_encoding
        \<lparr>backtrack_pieces = 2, cache_text = ''aa'', pieces = [(0, 1), (1, 2)],
         piece_tokens = [[1], [1]], tokens = [1, 1]\<rparr>
        (map Append [''b'', ''a''])
   \<and> append_all aab_encoding
        \<lparr>backtrack_pieces = 2, cache_text = ''aa'', pieces = [(0, 1), (1, 2)],
         piece_tokens = [[1], [1]], tokens = [1, 1]\<rparr>
        [''b'', ''a'']
       = Inr (\<lparr>backtrack_pieces = 2, cache_text = ''aaba'', pieces = [(0, 3), (3, 4)],
               piece_tokens = [[3], [1]], tokens = [3, 1]\<rparr>,
              [\<lparr>rollback_tokens = 2, tokens_to_append = [3]\<rparr>,
               \<lparr>rollback_tokens = 1, tokens_to_append = [3, 1]\<rparr>])
   \<and> enc_encode_ordinary aab_encoding (''aa'' @ concat [''b'', ''a'']) = [3, 1]
   \<and> foldl apply_delta [1, 1]
        [\<lparr>rollback_tokens = 2, tokens_to_append = [3]\<rparr>,
         \<lparr>rollback_tokens = 1, tokens_to_append = [3, 1]\<rparr>]
       = enc_encode_ordinary aab_encoding (''aa'' @ concat [''b'', ''a''])"
proof -
  let ?c0 = "\<lparr>backtrack_pieces = 2, cache_text = ''aa'', pieces = [(0, 1), (1, 2)],
              piece_tokens = [[1], [1]], tokens = [1, 1]\<rparr> :: char AppendOnlyPieceTokenCache"
  let ?ds = "[''b'', ''a'']"
  have init: "AppendOnlyPieceTokenCache_init aab_encoding ''aa'' 2 = Inr ?c0"
    by code_simp
  have ok: "backtrack_ok_calls aab_encoding ?c0 (map Append ?ds)"
    by code_simp
  have run: "append_all aab_encoding ?c0 ?ds
       = Inr (\<lparr>backtrack_pieces = 2, cache_text = ''aaba'', pieces = [(0, 3), (3, 4)],
               piece_tokens = [[3], [1]], tokens = [3, 1]\<rparr>,
              [\<lparr>rollback_tokens = 2, tokens_to_append = [3]\<rparr>,
               \<lparr>rollback_tokens = 1, tokens_to_append = [3, 1]\<rparr>])"
    by code_simp
  have eo: "enc_encode_ordinary aab_encoding (''aa'' @ concat ?ds) = [3, 1]"
    by code_simp
  from append_all_tokens_cold[OF init aab_piecewise aab_matches_in_text ok] obtain c tds where
    r: "append_all aab_encoding ?c0 ?ds = Inr (c, tds)"
    and replay: "foldl apply_delta (tokens ?c0) tds
                   = enc_encode_ordinary aab_encoding (''aa'' @ concat ?ds)"
    by blast
  have "tds = [\<lparr>rollback_tokens = 2, tokens_to_append = [3]\<rparr>,
               \<lparr>rollback_tokens = 1, tokens_to_append = [3, 1]\<rparr>]"
    using r run by simp
  then show ?thesis
    using aab_piecewise aab_matches_in_text init ok run eo replay by simp
qed

end
